theory Spec2Isabelle
  imports Main "HOL-Library.Word"
begin

section \<open>Go values used by package cbindex\<close>

text \<open>
  The three package-level error values of \<^verbatim>\<open>index.go\<close>, the two errors that
  \<^verbatim>\<open>NewFileIndex\<close> creates with \<^verbatim>\<open>errors.New\<close>, and the errors that come back
  from the standard library. \<^verbatim>\<open>io.EOF\<close> is not a constructor: the end of a list of
  reads stands for it (see \<open>csv_read\<close> below).
\<close>

datatype error =
    TooManyConcurrentHandlesError
  | InvalidHandleError
  | KeyTooShortForIndex
  | ErrorsNew string
  | ErrNotExist
  | ErrInvalid
  | OsError string
  | CsvError string

text \<open>Run-time panics the code can raise.\<close>

datatype panic = InterfaceConversion | IndexOutOfRange | SliceBoundsOutOfRange

text \<open>
  A Go function with results \<^verbatim>\<open>(v, error)\<close> either returns both (the error
  \<open>None\<close> for \<^verbatim>\<open>nil\<close>) or panics.
\<close>

datatype 'a result = Return 'a "error option" | Panic panic

text \<open>
  An open \<^verbatim>\<open>*os.File\<close>. Handles onto the same path are interchangeable for the
  code, so a handle is identified by the path it was opened at. A \<^verbatim>\<open>*os.File\<close>
  variable is an \<open>os_file option\<close>, \<open>None\<close> for the nil pointer. The value that
  \<^verbatim>\<open>sync.Pool.Get\<close> returns is an \<^verbatim>\<open>interface{}\<close>: the nil interface, or an
  interface holding a \<^verbatim>\<open>*os.File\<close>.
\<close>

datatype os_file = File string

datatype iface = NilInterface | FilePtr "os_file option"

text \<open>File operations, recorded in the order the code performs them.\<close>

datatype io_op = StatOp string | OpenOp string | SeekOp int | ReadOp

text \<open>
  One call of \<^verbatim>\<open>csv.Reader.Read\<close> that does not return \<^verbatim>\<open>io.EOF\<close>: the record
  and the error. A failed read may still return fields (\<^verbatim>\<open>ErrFieldCount\<close>) or none
  at all (a parse error in the first field).
\<close>

type_synonym csv_read = "string list \<times> error option"

text \<open>
  The operating system, the CSV reader and the Unicode case tables, as far as the
  code calls them.
  \<open>csv_Read env h off\<close> lists the results of the successive \<^verbatim>\<open>Read\<close> calls of a
  \<^verbatim>\<open>csv.NewReader\<close> over handle \<open>h\<close> positioned at byte \<open>off\<close>, up to the first
  \<^verbatim>\<open>io.EOF\<close>; every later call returns \<^verbatim>\<open>(nil, io.EOF)\<close>. The list is finite: the
  reader comes to the end of a finite file. (A reader that returns the same
  error forever, without ever reaching the end, is not covered.)
  \<open>unicode_ToLower env s\<close> is \<^verbatim>\<open>strings.Map(unicode.ToLower, s)\<close>, the lower-case
  form of a string that has a byte outside ASCII (see \<open>ToLower\<close> below).
\<close>

record os_env =
  os_Stat :: "string \<Rightarrow> error option"
  os_Open :: "string \<Rightarrow> error + os_file"
  file_Seek :: "os_file \<Rightarrow> int \<Rightarrow> error option"
  csv_Read :: "os_file \<Rightarrow> int \<Rightarrow> csv_read list"
  unicode_ToLower :: "string \<Rightarrow> string"

section \<open>Strings\<close>

text \<open>\<^verbatim>\<open>s[:n]\<close> on a Go string: a panic when \<open>n\<close> is out of range.\<close>

definition slice_to :: "string \<Rightarrow> int \<Rightarrow> panic + string" where
  "slice_to s n =
     (if n < 0 \<or> int (length s) < n then Inl SliceBoundsOutOfRange
      else Inr (take (nat n) s))"

text \<open>
  \<^verbatim>\<open>strings.ToLower\<close>. A string of ASCII bytes only (every byte below
  \<^verbatim>\<open>utf8.RuneSelf\<close>, 128) is mapped byte by byte: \<^verbatim>\<open>c += 'a' - 'A'\<close> for the bytes
  from \<^verbatim>\<open>'A'\<close> to \<^verbatim>\<open>'Z'\<close>. Any other string goes through
  \<^verbatim>\<open>Map(unicode.ToLower, s)\<close>, which decodes code points and maps them by the
  Unicode tables; that function is the parameter \<open>unicode_lower\<close>.
\<close>

definition is_ascii :: "string \<Rightarrow> bool" where
  "is_ascii s = list_all (\<lambda>c. (of_char c :: nat) < 128) s"

definition lower_byte :: "char \<Rightarrow> char" where
  "lower_byte c =
     (if 65 \<le> (of_char c :: nat) \<and> (of_char c :: nat) \<le> 90
      then char_of ((of_char c :: nat) + 32) else c)"

definition ToLower :: "(string \<Rightarrow> string) \<Rightarrow> string \<Rightarrow> string" where
  "ToLower unicode_lower s = (if is_ascii s then map lower_byte s else unicode_lower s)"

text \<open>\<^verbatim>\<open>strings.Contains(s, substr)\<close>: \<open>substr\<close> occurs at some position of \<open>s\<close>.\<close>

fun Contains :: "string \<Rightarrow> string \<Rightarrow> bool" where
  "Contains [] substr = (substr = [])"
| "Contains (c # s) substr =
     (take (length substr) (c # s) = substr \<or> Contains s substr)"

text \<open>\<^verbatim>\<open>strconv.ParseInt(s, 10, 64)\<close>; \<open>None\<close> when it returns an error.\<close>

definition digit_of :: "char \<Rightarrow> int option" where
  "digit_of c =
     (if 48 \<le> (of_char c :: nat) \<and> (of_char c :: nat) \<le> 57
      then Some (int (of_char c) - 48) else None)"

fun parse_digits :: "string \<Rightarrow> int \<Rightarrow> int option" where
  "parse_digits [] acc = Some acc"
| "parse_digits (c # cs) acc =
     (case digit_of c of None \<Rightarrow> None | Some d \<Rightarrow> parse_digits cs (acc * 10 + d))"

definition ParseInt :: "string \<Rightarrow> int option" where
  "ParseInt s =
     (let (neg, ds) =
            (case s of
               [] \<Rightarrow> (False, s)
             | c # cs \<Rightarrow>
                 if c = CHR ''+'' then (False, cs)
                 else if c = CHR ''-'' then (True, cs)
                 else (False, s))
      in if ds = [] then None
         else case parse_digits ds 0 of
                None \<Rightarrow> None
              | Some v \<Rightarrow>
                  (let r = (if neg then - v else v)
                   in if - (2 ^ 63) \<le> r \<and> r < 2 ^ 63 then Some r else None))"

section \<open>The engine\<close>

text \<open>
  \<^verbatim>\<open>type FileIndex struct\<close>. The two \<^verbatim>\<open>int32\<close> fields are 32-bit words read as
  signed (\<open>sint\<close>); \<^verbatim>\<open>int\<close> is 64 bits wide and no arithmetic is done on it.
  \<open>pool\<close> holds the idle handles of the \<^verbatim>\<open>sync.Pool\<close>, the most recently
  returned first; its \<^verbatim>\<open>New\<close> function is \<open>pool_New\<close> below.
\<close>

record FileIndex =
  dataCsvPath :: string
  indexCsvPath :: string
  concurrentHandleLimit :: "32 word"
  warmUp :: bool
  warmUpCount :: int
  warmUpDelay :: int
  indexKeyLength :: int
  pool :: "os_file list"
  openHandleCount :: "32 word"
  index :: "string \<rightharpoonup> int"

record Config =
  DataCsvPath :: string
  IndexCsvPath :: string
  ConcurrentHandleLimit :: "32 word"
  WarmUpCount :: int
  WarmUpDelay :: int
  IndexKeyLength :: int

subsection \<open>The handle pool\<close>

text \<open>
  The \<^verbatim>\<open>New\<close> closure of the pool: it opens the data file and returns the handle,
  or the untyped \<^verbatim>\<open>nil\<close> (the nil interface) when the open fails.
\<close>

definition pool_New :: "os_env \<Rightarrow> string \<Rightarrow> iface \<times> io_op list" where
  "pool_New env path =
     (case os_Open env path of
        Inl e \<Rightarrow> (NilInterface, [OpenOp path])
      | Inr file \<Rightarrow> (FilePtr (Some file), [OpenOp path]))"

text \<open>
  \<^verbatim>\<open>f.pool.Get()\<close>: an idle handle when there is one, the result of \<^verbatim>\<open>New\<close>
  otherwise. The pool is taken to keep every handle put back until it is handed
  out again (a \<^verbatim>\<open>sync.Pool\<close> may also drop idle items, and \<^verbatim>\<open>Get\<close> then calls
  \<^verbatim>\<open>New\<close> as for an empty pool).
\<close>

definition pool_Get :: "os_env \<Rightarrow> FileIndex \<Rightarrow> iface \<times> FileIndex \<times> io_op list" where
  "pool_Get env f =
     (case pool f of
        h # idle \<Rightarrow> (FilePtr (Some h), f\<lparr>pool := idle\<rparr>, [])
      | [] \<Rightarrow> (case pool_New env (dataCsvPath f) of (x, ops) \<Rightarrow> (x, f, ops)))"

text \<open>
  \<^verbatim>\<open>acquireHandle\<close>. The type assertion \<^verbatim>\<open>.(*os.File)\<close> has the single-value
  form: on the nil interface it panics.
\<close>

definition acquireHandle :: "os_env \<Rightarrow> FileIndex \<Rightarrow> os_file option result \<times> FileIndex \<times> io_op list" where
  "acquireHandle env f =
     (if sint (concurrentHandleLimit f) < sint (openHandleCount f)
      then (Return None (Some TooManyConcurrentHandlesError), f, [])
      else
        (case pool_Get env (f\<lparr>openHandleCount := openHandleCount f + 1\<rparr>) of
           (NilInterface, f', ops) \<Rightarrow> (Panic InterfaceConversion, f', ops)
         | (FilePtr None, f', ops) \<Rightarrow> (Return None (Some InvalidHandleError), f', ops)
         | (FilePtr (Some h), f', ops) \<Rightarrow> (Return (Some h) None, f', ops)))"

definition releaseHandle :: "FileIndex \<Rightarrow> os_file option \<Rightarrow> FileIndex" where
  "releaseHandle f handle =
     (case handle of
        None \<Rightarrow> f
      | Some h \<Rightarrow> f\<lparr>openHandleCount := openHandleCount f - 1, pool := h # pool f\<rparr>)"

subsection \<open>Exact match\<close>

text \<open>
  The scan loop of \<^verbatim>\<open>GetRow\<close> over the reads that precede \<^verbatim>\<open>io.EOF\<close>. The second
  component counts the calls of \<^verbatim>\<open>csvReader.Read\<close>. The error of a read is looked
  at only to recognise \<^verbatim>\<open>io.EOF\<close>; \<^verbatim>\<open>line[0]\<close> panics on a record without fields.
\<close>

fun GetRow_scan :: "int \<Rightarrow> string \<Rightarrow> string \<Rightarrow> csv_read list \<Rightarrow> string list option result \<times> nat" where
  "GetRow_scan n indexKey rowKey [] = (Return None None, 1)"
| "GetRow_scan n indexKey rowKey ((line, e) # rest) =
     (case line of
        [] \<Rightarrow> (Panic IndexOutOfRange, 1)
      | field0 # others \<Rightarrow>
          if int (length field0) < n
          then (case GetRow_scan n indexKey rowKey rest of (r, reads) \<Rightarrow> (r, Suc reads))
          else
            (case slice_to field0 n of
               Inl p \<Rightarrow> (Panic p, 1)
             | Inr key \<Rightarrow>
                 if key \<noteq> indexKey then (Return None None, 1)
                 else if field0 = rowKey then (Return (Some line) None, 1)
                 else (case GetRow_scan n indexKey rowKey rest of (r, reads) \<Rightarrow> (r, Suc reads))))"

text \<open>
  \<^verbatim>\<open>GetRow\<close> after the handle is acquired: the seek and the scan. \<^verbatim>\<open>Seek\<close> on a
  nil \<^verbatim>\<open>*os.File\<close> returns \<^verbatim>\<open>os.ErrInvalid\<close>.
\<close>

definition GetRow_body :: "os_env \<Rightarrow> int \<Rightarrow> string \<Rightarrow> string \<Rightarrow> os_file option \<Rightarrow> int \<Rightarrow> string list option result \<times> io_op list" where
  "GetRow_body env n indexKey rowKey handle offset =
     (case handle of
        None \<Rightarrow> (Return None (Some ErrInvalid), [])
      | Some h \<Rightarrow>
          (case file_Seek env h offset of
             Some e \<Rightarrow> (Return None (Some e), [SeekOp offset])
           | None \<Rightarrow>
               (case GetRow_scan n indexKey rowKey (csv_Read env h offset) of
                  (r, reads) \<Rightarrow> (r, SeekOp offset # replicate reads ReadOp))))"

text \<open>
  \<^verbatim>\<open>GetRow\<close>. The deferred \<^verbatim>\<open>releaseHandle\<close> runs on every way out of the body,
  a panic included; it is not yet registered when \<^verbatim>\<open>acquireHandle\<close> fails.
\<close>

definition GetRow :: "os_env \<Rightarrow> FileIndex \<Rightarrow> string \<Rightarrow> string list option result \<times> FileIndex \<times> io_op list" where
  "GetRow env f rowKey =
     (if int (length rowKey) < indexKeyLength f
      then (Return None (Some KeyTooShortForIndex), f, [])
      else
        (case slice_to rowKey (indexKeyLength f) of
           Inl p \<Rightarrow> (Panic p, f, [])
         | Inr indexKey \<Rightarrow>
             (case index f indexKey of
                None \<Rightarrow> (Return None None, f, [])
              | Some offset \<Rightarrow>
                  (case acquireHandle env f of
                     (Panic p, f1, ops1) \<Rightarrow> (Panic p, f1, ops1)
                   | (Return handle (Some e), f1, ops1) \<Rightarrow> (Return None (Some e), f1, ops1)
                   | (Return handle None, f1, ops1) \<Rightarrow>
                       (case GetRow_body env (indexKeyLength f) indexKey rowKey handle offset of
                          (r, ops2) \<Rightarrow> (r, releaseHandle f1 handle, ops1 @ ops2))))))"

subsection \<open>Partial match\<close>

text \<open>
  The scan loop of \<^verbatim>\<open>GetRowsByPartialKey\<close>; \<open>rows\<close> is the slice collected so
  far and \<open>lower\<close> the Unicode path of \<^verbatim>\<open>strings.ToLower\<close>. The limit is tested
  only after a row has been appended.
\<close>

fun GetRowsByPartialKey_scan :: "(string \<Rightarrow> string) \<Rightarrow> int \<Rightarrow> string \<Rightarrow> string \<Rightarrow> int \<Rightarrow> string list list \<Rightarrow> csv_read list \<Rightarrow> string list list result \<times> nat" where
  "GetRowsByPartialKey_scan lower n indexKey rowKey limit rows [] = (Return rows None, 1)"
| "GetRowsByPartialKey_scan lower n indexKey rowKey limit rows ((line, e) # rest) =
     (case line of
        [] \<Rightarrow> (Panic IndexOutOfRange, 1)
      | field0 # others \<Rightarrow>
          if int (length field0) < n
          then (case GetRowsByPartialKey_scan lower n indexKey rowKey limit rows rest of
                  (r, reads) \<Rightarrow> (r, Suc reads))
          else
            (case slice_to field0 n of
               Inl p \<Rightarrow> (Panic p, 1)
             | Inr key \<Rightarrow>
                 if key \<noteq> indexKey then (Return rows None, 1)
                 else if Contains (ToLower lower field0) (ToLower lower rowKey)
                 then
                   (if limit \<le> int (length (rows @ [line])) \<and> limit \<noteq> - 1
                    then (Return (rows @ [line]) None, 1)
                    else (case GetRowsByPartialKey_scan lower n indexKey rowKey limit (rows @ [line]) rest of
                            (r, reads) \<Rightarrow> (r, Suc reads)))
                 else (case GetRowsByPartialKey_scan lower n indexKey rowKey limit rows rest of
                         (r, reads) \<Rightarrow> (r, Suc reads))))"

definition GetRowsByPartialKey_body :: "os_env \<Rightarrow> int \<Rightarrow> string \<Rightarrow> string \<Rightarrow> int \<Rightarrow> os_file option \<Rightarrow> int \<Rightarrow> string list list result \<times> io_op list" where
  "GetRowsByPartialKey_body env n indexKey rowKey limit handle offset =
     (case handle of
        None \<Rightarrow> (Return [] (Some ErrInvalid), [])
      | Some h \<Rightarrow>
          (case file_Seek env h offset of
             Some e \<Rightarrow> (Return [] (Some e), [SeekOp offset])
           | None \<Rightarrow>
               (case GetRowsByPartialKey_scan (unicode_ToLower env) n indexKey rowKey limit []
                       (csv_Read env h offset) of
                  (r, reads) \<Rightarrow> (r, SeekOp offset # replicate reads ReadOp))))"

text \<open>\<^verbatim>\<open>GetRowsByPartialKey\<close>; the nil slice \<^verbatim>\<open>rows\<close> is the empty list.\<close>

definition GetRowsByPartialKey :: "os_env \<Rightarrow> FileIndex \<Rightarrow> string \<Rightarrow> int \<Rightarrow> string list list result \<times> FileIndex \<times> io_op list" where
  "GetRowsByPartialKey env f rowKey limit =
     (if int (length rowKey) < indexKeyLength f
      then (Return [] (Some KeyTooShortForIndex), f, [])
      else
        (case slice_to rowKey (indexKeyLength f) of
           Inl p \<Rightarrow> (Panic p, f, [])
         | Inr indexKey \<Rightarrow>
             (case index f indexKey of
                None \<Rightarrow> (Return [] None, f, [])
              | Some offset \<Rightarrow>
                  (case acquireHandle env f of
                     (Panic p, f1, ops1) \<Rightarrow> (Panic p, f1, ops1)
                   | (Return handle (Some e), f1, ops1) \<Rightarrow> (Return [] (Some e), f1, ops1)
                   | (Return handle None, f1, ops1) \<Rightarrow>
                       (case GetRowsByPartialKey_body env (indexKeyLength f) indexKey rowKey limit handle offset of
                          (r, ops2) \<Rightarrow> (r, releaseHandle f1 handle, ops1 @ ops2))))))"

subsection \<open>Construction\<close>

text \<open>
  The loop of \<^verbatim>\<open>NewFileIndex\<close> over the reads of the index file that precede
  \<^verbatim>\<open>io.EOF\<close>. \<^verbatim>\<open>line[0]\<close> and \<^verbatim>\<open>line[1]\<close> panic on a record with fewer than two
  fields; the error of the read is not looked at.
\<close>

fun load_index :: "csv_read list \<Rightarrow> (string \<rightharpoonup> int) \<Rightarrow> panic + (string \<rightharpoonup> int)" where
  "load_index [] idx = Inr idx"
| "load_index ((line, e) # rest) idx =
     (case line of
        [] \<Rightarrow> Inl IndexOutOfRange
      | [key] \<Rightarrow> Inl IndexOutOfRange
      | key # column1 # others \<Rightarrow>
          (case ParseInt column1 of
             None \<Rightarrow> load_index rest idx
           | Some offset \<Rightarrow> load_index rest (idx(key \<mapsto> offset))))"

text \<open>\<^verbatim>\<open>errors.Is(e, os.ErrNotExist)\<close> on the error of \<^verbatim>\<open>os.Stat\<close>.\<close>

definition is_ErrNotExist :: "error option \<Rightarrow> bool" where
  "is_ErrNotExist e = (e = Some ErrNotExist)"

definition NewFileIndex :: "os_env \<Rightarrow> Config \<Rightarrow> FileIndex option result \<times> io_op list" where
  "NewFileIndex env config =
     (if is_ErrNotExist (os_Stat env (DataCsvPath config))
      then (Return None (Some (ErrorsNew ''data csv file does not exist'')),
            [StatOp (DataCsvPath config)])
      else if is_ErrNotExist (os_Stat env (IndexCsvPath config))
      then (Return None (Some (ErrorsNew ''index csv file does not exist'')),
            [StatOp (DataCsvPath config), StatOp (IndexCsvPath config)])
      else
        (case os_Open env (IndexCsvPath config) of
           Inl e \<Rightarrow>
             (Return None (Some e),
              [StatOp (DataCsvPath config), StatOp (IndexCsvPath config), OpenOp (IndexCsvPath config)])
         | Inr indexFile \<Rightarrow>
             (case load_index (csv_Read env indexFile 0) Map.empty of
                Inl p \<Rightarrow>
                  (Panic p,
                   [StatOp (DataCsvPath config), StatOp (IndexCsvPath config), OpenOp (IndexCsvPath config)])
              | Inr idx \<Rightarrow>
                  (Return
                     (Some \<lparr>dataCsvPath = DataCsvPath config,
                            indexCsvPath = IndexCsvPath config,
                            concurrentHandleLimit = ConcurrentHandleLimit config,
                            warmUp = False,
                            warmUpCount = WarmUpCount config,
                            warmUpDelay = WarmUpDelay config,
                            indexKeyLength = IndexKeyLength config,
                            pool = [],
                            openHandleCount = 0,
                            index = idx\<rparr>)
                     None,
                   [StatOp (DataCsvPath config), StatOp (IndexCsvPath config), OpenOp (IndexCsvPath config)]))))"

section \<open>The same-prefix region\<close>

text \<open>
  The words of the specification about records, for a key \<open>k\<close> and the index key
  length \<open>n\<close>. A record has the key when its first field is the key. A record is
  in the same-prefix region when its first field is shorter than \<open>n\<close> (the scan
  passes over it) or starts with the first \<open>n\<close> bytes of \<open>k\<close>; it ends the region
  when its first field is at least \<open>n\<close> long and starts otherwise. A record
  without fields is neither.
\<close>

definition has_key :: "string \<Rightarrow> string list \<Rightarrow> bool" where
  "has_key k line = (case line of [] \<Rightarrow> False | field0 # others \<Rightarrow> field0 = k)"

definition in_region :: "int \<Rightarrow> string \<Rightarrow> string list \<Rightarrow> bool" where
  "in_region n k line =
     (case line of
        [] \<Rightarrow> False
      | field0 # others \<Rightarrow>
          int (length field0) < n \<or> take (nat n) field0 = take (nat n) k)"

definition ends_region :: "int \<Rightarrow> string \<Rightarrow> string list \<Rightarrow> bool" where
  "ends_region n k line =
     (case line of
        [] \<Rightarrow> False
      | field0 # others \<Rightarrow>
          n \<le> int (length field0) \<and> take (nat n) field0 \<noteq> take (nat n) k)"

text \<open>
  A record shares the prefix of \<open>k\<close> when its first field is at least \<open>n\<close> long
  and starts with the first \<open>n\<close> bytes of \<open>k\<close>: the records of the same-prefix
  region are the records of the scanned run that share the prefix.
\<close>

definition shares_prefix :: "int \<Rightarrow> string \<Rightarrow> string list \<Rightarrow> bool" where
  "shares_prefix n k line =
     (case line of
        [] \<Rightarrow> False
      | field0 # others \<Rightarrow>
          n \<le> int (length field0) \<and> take (nat n) field0 = take (nat n) k)"

text \<open>
  Two bytes are the same letter when they are equal or one is an upper-case
  ASCII letter and the other the lower-case letter for it. A field contains \<open>s\<close>
  as a case-insensitive substring: for ASCII text, when some part of the field
  is \<open>s\<close> letter by letter (this is stated without the lower-case map of the
  code); for text with a byte outside ASCII, where the letters are those of the
  Unicode tables, when the lower-case form of the field has the lower-case form
  of \<open>s\<close> as a part. A record matches \<open>s\<close> when its first field contains \<open>s\<close> in
  this sense.
\<close>

definition same_letter :: "char \<Rightarrow> char \<Rightarrow> bool" where
  "same_letter c d =
     (c = d
      \<or> (65 \<le> (of_char c :: nat) \<and> (of_char c :: nat) \<le> 90 \<and> (of_char d :: nat) = of_char c + 32)
      \<or> (65 \<le> (of_char d :: nat) \<and> (of_char d :: nat) \<le> 90 \<and> (of_char c :: nat) = of_char d + 32))"

definition ci_substring :: "(string \<Rightarrow> string) \<Rightarrow> string \<Rightarrow> string \<Rightarrow> bool" where
  "ci_substring unicode_lower s field =
     (if is_ascii s \<and> is_ascii field
      then \<exists>before mid after. field = before @ mid @ after \<and> list_all2 same_letter mid s
      else \<exists>before after.
             ToLower unicode_lower field = before @ ToLower unicode_lower s @ after)"

definition matches :: "(string \<Rightarrow> string) \<Rightarrow> string \<Rightarrow> string list \<Rightarrow> bool" where
  "matches unicode_lower s line =
     (case line of [] \<Rightarrow> False | field0 # others \<Rightarrow> ci_substring unicode_lower s field0)"

text \<open>
  The records of a list that share the prefix of \<open>s\<close> and match \<open>s\<close>, in the order
  of the list.
\<close>

definition matching_records :: "(string \<Rightarrow> string) \<Rightarrow> int \<Rightarrow> string \<Rightarrow> string list list \<Rightarrow> string list list" where
  "matching_records unicode_lower n s lines =
     filter (\<lambda>line. shares_prefix n s line \<and> matches unicode_lower s line) lines"

text \<open>
  Two states of the engine have the same configuration when they agree on the
  paths, the handle limit, the warm-up settings, the index key length and the
  prefix index: on every field but the counter of open handles and the pool.
\<close>

definition same_configuration :: "FileIndex \<Rightarrow> FileIndex \<Rightarrow> bool" where
  "same_configuration f f' =
     (dataCsvPath f' = dataCsvPath f \<and> indexCsvPath f' = indexCsvPath f
      \<and> concurrentHandleLimit f' = concurrentHandleLimit f
      \<and> warmUp f' = warmUp f \<and> warmUpCount f' = warmUpCount f \<and> warmUpDelay f' = warmUpDelay f
      \<and> indexKeyLength f' = indexKeyLength f \<and> index f' = index f)"

section \<open>A small installation\<close>

text \<open>
  The data file of the examples holds the three records \<^verbatim>\<open>cat,1\<close>, \<^verbatim>\<open>cats,2\<close>
  and \<^verbatim>\<open>bat,3\<close>, one per line; the index file maps the prefix \<^verbatim>\<open>ca\<close> to byte 0
  and \<^verbatim>\<open>ba\<close> to byte 13. Every file can be opened, and a seek fails on a negative
  offset only. All the text is ASCII, so the Unicode case tables are never
  consulted.
\<close>

definition example_records :: "csv_read list" where
  "example_records =
     [([''cat'', ''1''], None), ([''cats'', ''2''], None), ([''bat'', ''3''], None)]"

definition example_index_lines :: "csv_read list" where
  "example_index_lines = [([''ca'', ''0''], None), ([''ba'', ''13''], None)]"

definition example_reader :: "csv_read list \<Rightarrow> csv_read list \<Rightarrow> os_file \<Rightarrow> int \<Rightarrow> csv_read list" where
  "example_reader idx recs h offset =
     (if h = File ''index.csv'' \<and> offset = 0 then idx
      else if h = File ''data.csv'' \<and> offset = 0 then recs
      else if h = File ''data.csv'' \<and> offset = 13 then drop 2 recs
      else [])"

definition example_env :: os_env where
  "example_env =
     \<lparr>os_Stat = (\<lambda>path. None),
      os_Open = (\<lambda>path. Inr (File path)),
      file_Seek = (\<lambda>h offset. if offset < 0 then Some ErrInvalid else None),
      csv_Read = example_reader example_index_lines example_records,
      unicode_ToLower = (\<lambda>s. s)\<rparr>"

definition example_config :: Config where
  "example_config =
     \<lparr>DataCsvPath = ''data.csv'', IndexCsvPath = ''index.csv'',
      ConcurrentHandleLimit = 10, WarmUpCount = 0, WarmUpDelay = 0, IndexKeyLength = 2\<rparr>"

definition example_index :: FileIndex where
  "example_index =
     \<lparr>dataCsvPath = ''data.csv'', indexCsvPath = ''index.csv'',
      concurrentHandleLimit = 10, warmUp = False, warmUpCount = 0, warmUpDelay = 0,
      indexKeyLength = 2, pool = [], openHandleCount = 0,
      index = [''ca'' \<mapsto> 0, ''ba'' \<mapsto> 13]\<rparr>"

text \<open>
  Variations of the installation: a handle limit of 1; a system where opening a
  file fails; a data file whose second record has a field too many (the reader
  returns it together with \<^verbatim>\<open>ErrFieldCount\<close>) and whose third record has a bare
  quote in its first field (the reader returns no field and a parse error); an
  index file whose only line has one column.
\<close>

definition limit_one_index :: FileIndex where
  "limit_one_index = example_index\<lparr>concurrentHandleLimit := 1\<rparr>"

definition no_open_env :: os_env where
  "no_open_env = example_env\<lparr>os_Open := (\<lambda>path. Inl (OsError ''too many open files''))\<rparr>"

definition damaged_records :: "csv_read list" where
  "damaged_records =
     [([''cat'', ''1''], None),
      ([''cats'', ''2'', ''x''], Some (CsvError ''wrong number of fields'')),
      ([], Some (CsvError ''bare quote in non-quoted field''))]"

definition damaged_env :: os_env where
  "damaged_env = example_env\<lparr>csv_Read := example_reader example_index_lines damaged_records\<rparr>"

text \<open>
  A data file with the two records \<^verbatim>\<open>caf\<close>E-acute\<^verbatim>\<open>,1\<close> and \<^verbatim>\<open>caf\<close>e-acute\<^verbatim>\<open>,2\<close>
  in UTF-8 (E-acute is the bytes C3 89, e-acute the bytes C3 A9), with the one
  entry of the Unicode tables that lower-cases E-acute.
\<close>

fun lower_E_acute :: "string \<Rightarrow> string" where
  "lower_E_acute (c # d # s) =
     (if c = char_of (195 :: nat) \<and> d = char_of (137 :: nat)
      then char_of (195 :: nat) # char_of (169 :: nat) # lower_E_acute s
      else c # lower_E_acute (d # s))"
| "lower_E_acute s = s"

definition cafe_upper :: string where
  "cafe_upper = ''caf'' @ [char_of (195 :: nat), char_of (137 :: nat)]"

definition cafe_lower :: string where
  "cafe_lower = ''caf'' @ [char_of (195 :: nat), char_of (169 :: nat)]"

definition accent_records :: "csv_read list" where
  "accent_records = [([cafe_upper, ''1''], None), ([cafe_lower, ''2''], None)]"

definition accent_env :: os_env where
  "accent_env =
     example_env\<lparr>csv_Read := example_reader example_index_lines accent_records,
                  unicode_ToLower := lower_E_acute\<rparr>"

definition one_column_env :: os_env where
  "one_column_env = example_env\<lparr>csv_Read := example_reader [([''ca''], None)] example_records\<rparr>"

section \<open>Keys that never reach the file\<close>

text \<open>
  Claim C7. For every key shorter than the index key length, \<^verbatim>\<open>GetRow\<close> and, for
  every limit, \<^verbatim>\<open>GetRowsByPartialKey\<close> return the error \<^verbatim>\<open>KeyTooShortForIndex\<close>;
  the engine is left as it was (no handle is taken, the counter and the pool are
  unchanged) and the list of file operations performed is empty.
\<close>

theorem key_too_short_no_io:
  assumes "int (length k) < indexKeyLength f"
  shows "GetRow env f k = (Return None (Some KeyTooShortForIndex), f, [])
       \<and> GetRowsByPartialKey env f k limit = (Return [] (Some KeyTooShortForIndex), f, [])"
  using assms by (simp add: GetRow_def GetRowsByPartialKey_def)

theorem key_too_short_no_io_witness:
  "GetRow example_env example_index ''c'' =
     (Return None (Some KeyTooShortForIndex), example_index, [])
   \<and> GetRowsByPartialKey example_env example_index ''c'' 5 =
     (Return [] (Some KeyTooShortForIndex), example_index, [])"
  using key_too_short_no_io [of "''c''" example_index example_env 5]
  by (simp add: example_index_def)

text \<open>
  Claim C8. For every key at least as long as the index key length whose prefix
  is not in the index, \<^verbatim>\<open>GetRow\<close> returns the nil row and no error; the engine is
  left as it was (no handle is taken) and no file operation is performed. (The
  index key length is not negative: the slice \<^verbatim>\<open>rowKey[:n]\<close> would panic.)
\<close>

theorem absent_prefix_not_found:
  assumes "0 \<le> indexKeyLength f"
    and "indexKeyLength f \<le> int (length k)"
    and "index f (take (nat (indexKeyLength f)) k) = None"
  shows "GetRow env f k = (Return None None, f, [])"
  using assms by (simp add: GetRow_def slice_to_def)

theorem absent_prefix_not_found_witness:
  "GetRow example_env example_index ''dog'' = (Return None None, example_index, [])"
  using absent_prefix_not_found [of example_index "''dog''" example_env]
  by (simp add: example_index_def)

section \<open>Exact match\<close>

text \<open>The scan passes over records of the region that do not have the key.\<close>

lemma GetRow_scan_skip:
  assumes "0 \<le> n"
    and "\<forall>(l, e)\<in>set before. in_region n k l \<and> \<not> has_key k l"
  shows "GetRow_scan n (take (nat n) k) k (before @ rest) =
           (case GetRow_scan n (take (nat n) k) k rest of
              (r, reads) \<Rightarrow> (r, length before + reads))"
  using assms(2)
proof (induction before)
  case Nil
  then show ?case by simp
next
  case (Cons a before)
  obtain l e where a: "a = (l, e)" by (cases a)
  with Cons.prems obtain field0 others where l: "l = field0 # others"
    by (cases l) (auto simp: in_region_def)
  from Cons.prems a l have nomatch: "field0 \<noteq> k"
    and reg: "int (length field0) < n \<or> take (nat n) field0 = take (nat n) k"
    by (auto simp: in_region_def has_key_def)
  from Cons have IH: "GetRow_scan n (take (nat n) k) k (before @ rest) =
           (case GetRow_scan n (take (nat n) k) k rest of
              (r, reads) \<Rightarrow> (r, length before + reads))"
    by simp
  show ?case
    using reg nomatch \<open>0 \<le> n\<close>
    by (auto simp: a l IH slice_to_def split: prod.splits)
qed

lemma GetRow_scan_row:
  "fst (GetRow_scan n ik k reads) = Return (Some row) err \<Longrightarrow>
     err = None \<and> has_key k row"
proof (induction reads)
  case Nil
  then show ?case by simp
next
  case (Cons a reads)
  obtain l e where a: "a = (l, e)" by (cases a)
  show ?case
  proof (cases l)
    case Nil
    with Cons.prems a show ?thesis by simp
  next
    case (Cons field0 others)
    with Cons.prems Cons.IH a show ?thesis
      by (auto simp: slice_to_def has_key_def split: if_splits prod.splits)
  qed
qed

lemma GetRow_body_row:
  assumes "fst (GetRow_body env n ik k handle offset) = Return (Some row) err"
  shows "err = None \<and> has_key k row"
proof -
  from assms obtain h reads where
    "GetRow_scan n ik k (csv_Read env h offset) = (Return (Some row) err, reads)"
    by (auto simp: GetRow_body_def split: option.splits prod.splits)
  then have "fst (GetRow_scan n ik k (csv_Read env h offset)) = Return (Some row) err"
    by simp
  then show ?thesis by (rule GetRow_scan_row)
qed

lemma GetRow_row:
  assumes "fst (GetRow env f k) = Return (Some row) err"
  shows "err = None \<and> has_key k row"
proof -
  from assms obtain n ik handle offset ops where
    "GetRow_body env n ik k handle offset = (Return (Some row) err, ops)"
    by (auto simp: GetRow_def split: if_splits sum.splits option.splits prod.splits result.splits)
  then have "fst (GetRow_body env n ik k handle offset) = Return (Some row) err"
    by simp
  then show ?thesis by (rule GetRow_body_row)
qed

lemma GetRow_acquired:
  assumes "0 \<le> indexKeyLength f"
    and "indexKeyLength f \<le> int (length k)"
    and "index f (take (nat (indexKeyLength f)) k) = Some offset"
    and "fst (acquireHandle env f) = Return (Some h) None"
    and "file_Seek env h offset = None"
  shows "fst (GetRow env f k) =
           fst (GetRow_scan (indexKeyLength f) (take (nat (indexKeyLength f)) k) k (csv_Read env h offset))"
    and "snd (snd (GetRow env f k)) =
           snd (snd (acquireHandle env f)) @ SeekOp offset #
             replicate (snd (GetRow_scan (indexKeyLength f) (take (nat (indexKeyLength f)) k) k (csv_Read env h offset))) ReadOp"
  using assms
  by (auto simp: GetRow_def GetRow_body_def slice_to_def split: prod.splits)

text \<open>
  Claim C1. Whatever \<^verbatim>\<open>GetRow\<close> returns as a row has the key as its first field,
  and comes with no error: a record that only shares the prefix is never
  returned. When the prefix of \<open>k\<close> is indexed at \<open>offset\<close>, a handle is acquired, the
  seek succeeds, and the records read from \<open>offset\<close> start with records \<open>before\<close>
  of the region that do not have the key, followed by \<open>line\<close>, then: if \<open>line\<close> has
  the key, \<^verbatim>\<open>GetRow\<close> returns exactly \<open>line\<close> and no error; if \<open>line\<close> ends the
  region (its own prefix differs), \<^verbatim>\<open>GetRow\<close> returns not-found, whatever comes
  \<open>after\<close>. In both cases \<open>line\<close> is the last record read.
\<close>

theorem GetRow_exact_match:
  "(fst (GetRow env f k) = Return (Some row) err \<longrightarrow> err = None \<and> has_key k row)
   \<and> (0 \<le> indexKeyLength f \<and> indexKeyLength f \<le> int (length k)
      \<and> index f (take (nat (indexKeyLength f)) k) = Some offset
      \<and> fst (acquireHandle env f) = Return (Some h) None
      \<and> file_Seek env h offset = None
      \<and> csv_Read env h offset = before @ (line, e) # after
      \<and> (\<forall>(l, e')\<in>set before. in_region (indexKeyLength f) k l \<and> \<not> has_key k l)
      \<longrightarrow>
        (has_key k line \<longrightarrow>
           fst (GetRow env f k) = Return (Some line) None
           \<and> snd (snd (GetRow env f k)) =
               snd (snd (acquireHandle env f)) @ SeekOp offset # replicate (length before + 1) ReadOp)
      \<and> (ends_region (indexKeyLength f) k line \<longrightarrow>
           fst (GetRow env f k) = Return None None
           \<and> snd (snd (GetRow env f k)) =
               snd (snd (acquireHandle env f)) @ SeekOp offset # replicate (length before + 1) ReadOp))"
proof (intro conjI impI)
  assume "fst (GetRow env f k) = Return (Some row) err"
  then show "err = None" and "has_key k row"
    using GetRow_row by blast+
next
  assume scene: "0 \<le> indexKeyLength f \<and> indexKeyLength f \<le> int (length k)
      \<and> index f (take (nat (indexKeyLength f)) k) = Some offset
      \<and> fst (acquireHandle env f) = Return (Some h) None
      \<and> file_Seek env h offset = None
      \<and> csv_Read env h offset = before @ (line, e) # after
      \<and> (\<forall>(l, e')\<in>set before. in_region (indexKeyLength f) k l \<and> \<not> has_key k l)"
  let ?n = "indexKeyLength f"
  let ?scan = "GetRow_scan ?n (take (nat ?n) k) k"
  from scene have skip: "?scan (csv_Read env h offset) =
      (case ?scan ((line, e) # after) of (r, reads) \<Rightarrow> (r, length before + reads))"
    using GetRow_scan_skip [of ?n before k "(line, e) # after"] by simp
  note acq = GetRow_acquired [of f k offset env h]
  {
    assume "has_key k line"
    then have "?scan ((line, e) # after) = (Return (Some line) None, 1)"
      using scene by (auto simp: has_key_def slice_to_def split: list.splits)
    with skip have "?scan (csv_Read env h offset) = (Return (Some line) None, length before + 1)"
      by simp
    with acq scene show "fst (GetRow env f k) = Return (Some line) None"
      and "snd (snd (GetRow env f k)) =
               snd (snd (acquireHandle env f)) @ SeekOp offset # replicate (length before + 1) ReadOp"
      by simp_all
  }
  {
    assume "ends_region ?n k line"
    then have "?scan ((line, e) # after) = (Return None None, 1)"
      using scene by (auto simp: ends_region_def slice_to_def split: list.splits)
    with skip have "?scan (csv_Read env h offset) = (Return None None, length before + 1)"
      by simp
    with acq scene show "fst (GetRow env f k) = Return None None"
      and "snd (snd (GetRow env f k)) =
               snd (snd (acquireHandle env f)) @ SeekOp offset # replicate (length before + 1) ReadOp"
      by simp_all
  }
qed

lemma example_acquire:
  "acquireHandle example_env example_index =
     (Return (Some (File ''data.csv'')) None, example_index\<lparr>openHandleCount := 1\<rparr>, [OpenOp ''data.csv''])"
  by (simp add: acquireHandle_def pool_Get_def pool_New_def example_env_def example_index_def)

lemma example_scene:
  "indexKeyLength example_index = 2"
  "index example_index ''ca'' = Some 0"
  "fst (acquireHandle example_env example_index) = Return (Some (File ''data.csv'')) None"
  "snd (snd (acquireHandle example_env example_index)) = [OpenOp ''data.csv'']"
  "file_Seek example_env (File ''data.csv'') 0 = None"
  "csv_Read example_env (File ''data.csv'') 0 = example_records"
  by (simp_all add: example_acquire)
     (simp_all add: example_index_def example_env_def example_reader_def)

theorem GetRow_exact_match_witness:
  "fst (GetRow example_env example_index ''cats'') = Return (Some [''cats'', ''2'']) None
   \<and> snd (snd (GetRow example_env example_index ''cats'')) = [OpenOp ''data.csv'', SeekOp 0, ReadOp, ReadOp]
   \<and> fst (GetRow example_env example_index ''cab'') = Return None None
   \<and> snd (snd (GetRow example_env example_index ''cab'')) = [OpenOp ''data.csv'', SeekOp 0, ReadOp, ReadOp, ReadOp]"
proof -
  have idx: "indexKeyLength example_index = 2" "index example_index ''ca'' = Some 0"
    by (simp_all add: example_index_def)
  have env: "file_Seek example_env (File ''data.csv'') 0 = None"
    "csv_Read example_env (File ''data.csv'') 0 = example_records"
    by (simp_all add: example_env_def example_reader_def)
  have a: "fst (GetRow example_env example_index ''cats'') = Return (Some [''cats'', ''2'']) None
     \<and> snd (snd (GetRow example_env example_index ''cats'')) = [OpenOp ''data.csv'', SeekOp 0, ReadOp, ReadOp]"
    using GetRow_exact_match [of example_env example_index "''cats''" "[]" None 0 "File ''data.csv''"
        "[([''cat'', ''1''], None)]" "[''cats'', ''2'']" None "[([''bat'', ''3''], None)]"]
    by (simp add: idx env example_acquire example_records_def in_region_def has_key_def)
  have b: "fst (GetRow example_env example_index ''cab'') = Return None None
     \<and> snd (snd (GetRow example_env example_index ''cab'')) = [OpenOp ''data.csv'', SeekOp 0, ReadOp, ReadOp, ReadOp]"
    using GetRow_exact_match [of example_env example_index "''cab''" "[]" None 0 "File ''data.csv''"
        "[([''cat'', ''1''], None), ([''cats'', ''2''], None)]" "[''bat'', ''3'']" None "[]"]
    by (simp add: idx env example_acquire example_records_def in_region_def has_key_def ends_region_def)
  from a b show ?thesis by simp
qed


section \<open>Partial match\<close>

text \<open>
  What the code tests, \<^verbatim>\<open>strings.Contains(strings.ToLower(field), strings.ToLower(s))\<close>,
  is the case-insensitive substring of the specification.
\<close>

lemma Contains_iff: "Contains s sub \<longleftrightarrow> (\<exists>before after. s = before @ sub @ after)"
proof (induction s)
  case Nil
  then show ?case by auto
next
  case (Cons c s)
  show ?case
  proof
    assume "Contains (c # s) sub"
    then consider "take (length sub) (c # s) = sub" | "Contains s sub" by auto
    then show "\<exists>before after. c # s = before @ sub @ after"
    proof cases
      case 1
      then have "c # s = [] @ sub @ drop (length sub) (c # s)"
        by (metis append_Nil append_take_drop_id)
      then show ?thesis by blast
    next
      case 2
      with Cons.IH obtain before after where "s = before @ sub @ after" by blast
      then have "c # s = (c # before) @ sub @ after" by simp
      then show ?thesis by blast
    qed
  next
    assume "\<exists>before after. c # s = before @ sub @ after"
    then obtain before after where eq: "c # s = before @ sub @ after" by blast
    show "Contains (c # s) sub"
    proof (cases before)
      case Nil
      with eq have "take (length sub) (c # s) = sub" by simp
      then show ?thesis by simp
    next
      case (Cons b before')
      with eq have "s = before' @ sub @ after" by simp
      with Cons.IH have "Contains s sub" by blast
      then show ?thesis by simp
    qed
  qed
qed

lemma of_char_lower_byte:
  "(of_char (lower_byte c) :: nat) =
     (if 65 \<le> (of_char c :: nat) \<and> (of_char c :: nat) \<le> 90 then of_char c + 32 else of_char c)"
  by (simp add: lower_byte_def)

lemma lower_byte_same_letter: "lower_byte c = lower_byte d \<longleftrightarrow> same_letter c d"
proof -
  have "lower_byte c = lower_byte d \<longleftrightarrow>
      (of_char (lower_byte c) :: nat) = of_char (lower_byte d)"
    by simp
  also have "\<dots> \<longleftrightarrow> same_letter c d"
    unfolding of_char_lower_byte same_letter_def
    using of_char_eq_iff [of c d, where ?'a = nat] by auto
  finally show ?thesis .
qed

lemma map_lower_byte_same_letter:
  "map lower_byte xs = map lower_byte ys \<longleftrightarrow> list_all2 same_letter xs ys"
proof (induction xs arbitrary: ys)
  case Nil
  then show ?case by auto
next
  case (Cons x xs)
  then show ?case by (cases ys) (auto simp: lower_byte_same_letter)
qed

lemma ascii_part_lower:
  "(\<exists>before after. map lower_byte field = before @ map lower_byte s @ after) \<longleftrightarrow>
   (\<exists>before mid after. field = before @ mid @ after \<and> list_all2 same_letter mid s)"
proof
  assume "\<exists>before after. map lower_byte field = before @ map lower_byte s @ after"
  then obtain b a where eq: "map lower_byte field = b @ map lower_byte s @ a" by blast
  let ?fm = "take (length s) (drop (length b) field)"
  have "?fm @ drop (length s) (drop (length b) field) = drop (length b) field"
    by (rule append_take_drop_id)
  then have split: "field = take (length b) field @ ?fm @ drop (length s) (drop (length b) field)"
    by (simp only: append_take_drop_id)
  have "map lower_byte ?fm = take (length s) (drop (length b) (map lower_byte field))"
    by (simp add: take_map drop_map)
  then have "map lower_byte ?fm = map lower_byte s"
    by (simp add: eq)
  then have low: "list_all2 same_letter ?fm s"
    by (simp only: map_lower_byte_same_letter)
  show "\<exists>before mid after. field = before @ mid @ after \<and> list_all2 same_letter mid s"
    by (rule exI [of _ "take (length b) field"], rule exI [of _ ?fm],
        rule exI [of _ "drop (length s) (drop (length b) field)"], rule conjI [OF split low])
next
  assume "\<exists>before mid after. field = before @ mid @ after \<and> list_all2 same_letter mid s"
  then obtain b m a where "field = b @ m @ a" and "list_all2 same_letter m s" by blast
  then have "map lower_byte field = map lower_byte b @ map lower_byte s @ map lower_byte a"
    by (simp add: map_lower_byte_same_letter)
  then show "\<exists>before after. map lower_byte field = before @ map lower_byte s @ after"
    by blast
qed

lemma Contains_ToLower:
  "Contains (ToLower lower field) (ToLower lower s) \<longleftrightarrow> ci_substring lower s field"
proof (cases "is_ascii s \<and> is_ascii field")
  case True
  then show ?thesis
    by (simp add: Contains_iff ToLower_def ci_substring_def ascii_part_lower)
next
  case False
  then show ?thesis
    by (simp only: Contains_iff ci_substring_def if_False)
qed

lemma fst_case_prod_count [simp]:
  "fst (case p of (r, reads) \<Rightarrow> (r, g reads)) = fst p"
  by (cases p) simp



text \<open>
  The scan passes over records of the region as long as the limit is not
  reached, collecting the matching ones.
\<close>

lemma partial_scan_skip:
  assumes "0 \<le> n"
    and "\<forall>(l, e)\<in>set before. in_region n s l"
    and "limit = - 1 \<or> matching_records lower n s (map fst before) = [] \<or>
         int (length rows) + int (length (matching_records lower n s (map fst before))) < limit"
  shows "GetRowsByPartialKey_scan lower n (take (nat n) s) s limit rows (before @ rest) =
           (case GetRowsByPartialKey_scan lower n (take (nat n) s) s limit
                   (rows @ matching_records lower n s (map fst before)) rest of
              (r, reads) \<Rightarrow> (r, length before + reads))"
  using assms(2,3)
proof (induction before arbitrary: rows)
  case Nil
  then show ?case by (simp add: matching_records_def)
next
  case (Cons a before)
  obtain l e where a: "a = (l, e)" by (cases a)
  with Cons.prems obtain field0 others where l: "l = field0 # others"
    by (cases l) (auto simp: in_region_def)
  from Cons.prems a l
  have reg: "int (length field0) < n \<or> take (nat n) field0 = take (nat n) s"
    and rest: "\<forall>(l, e)\<in>set before. in_region n s l"
    by (auto simp: in_region_def)
  let ?scan = "GetRowsByPartialKey_scan lower n (take (nat n) s) s limit"
  let ?m = "matching_records lower n s (map fst before)"
  show ?case
  proof (cases "ci_substring lower s field0 \<and> \<not> int (length field0) < n")
    case False
    with reg have ms: "matching_records lower n s (map fst (a # before)) = ?m"
      by (auto simp: a l matching_records_def matches_def shares_prefix_def)
    with Cons.prems(2) have "limit = - 1 \<or> ?m = [] \<or>
         int (length rows) + int (length ?m) < limit" by simp
    note IH = Cons.IH [OF rest this]
    from reg False \<open>0 \<le> n\<close>
    have "?scan rows ((a # before) @ rest) =
        (case ?scan rows (before @ rest) of (r, reads) \<Rightarrow> (r, Suc reads))"
      by (auto simp: a l slice_to_def Contains_ToLower)
    then show ?thesis
      by (simp only: ms IH) (simp split: prod.splits)
  next
    case True
    then have hit: "ci_substring lower s field0" and long: "\<not> int (length field0) < n"
      by simp_all
    with reg have same: "take (nat n) field0 = take (nat n) s" by simp
    from hit long same have ms: "matching_records lower n s (map fst (a # before)) = l # ?m"
      by (simp add: a l matching_records_def matches_def shares_prefix_def)
    with Cons.prems(2) have room: "limit = - 1 \<or> int (length rows) + 1 + int (length ?m) < limit"
      by auto
    then have "limit = - 1 \<or> ?m = [] \<or>
         int (length (rows @ [l])) + int (length ?m) < limit" by auto
    note IH = Cons.IH [OF rest this]
    from room have go: "\<not> (limit \<le> int (length (rows @ [l])) \<and> limit \<noteq> - 1)"
      by auto
    from long same hit \<open>0 \<le> n\<close> go
    have "?scan rows ((a # before) @ rest) =
        (case ?scan (rows @ [l]) (before @ rest) of (r, reads) \<Rightarrow> (r, Suc reads))"
      unfolding a l by (auto simp add: slice_to_def Contains_ToLower simp del: length_append)
    then show ?thesis
      by (simp only: ms IH) (simp split: prod.splits)
  qed
qed

lemma partial_scan_hit:
  assumes "0 \<le> n"
    and "shares_prefix n s line" and "matches lower s line"
    and "limit \<le> int (length rows) + 1" and "limit \<noteq> - 1"
  shows "GetRowsByPartialKey_scan lower n (take (nat n) s) s limit rows ((line, e) # after) =
           (Return (rows @ [line]) None, 1)"
proof -
  from assms(3) obtain field0 others where l: "line = field0 # others"
    and hit: "ci_substring lower s field0"
    by (cases line) (auto simp: matches_def)
  from assms(2) l have long: "\<not> int (length field0) < n"
    and same: "take (nat n) field0 = take (nat n) s"
    by (simp_all add: shares_prefix_def)
  from long same hit assms(1,4,5) show ?thesis
    by (simp add: l slice_to_def Contains_ToLower)
qed

lemma GetRowsByPartialKey_acquired:
  assumes "0 \<le> indexKeyLength f"
    and "indexKeyLength f \<le> int (length s)"
    and "index f (take (nat (indexKeyLength f)) s) = Some offset"
    and "fst (acquireHandle env f) = Return (Some h) None"
    and "file_Seek env h offset = None"
  shows "fst (GetRowsByPartialKey env f s limit) =
           fst (GetRowsByPartialKey_scan (unicode_ToLower env) (indexKeyLength f)
                  (take (nat (indexKeyLength f)) s) s limit [] (csv_Read env h offset))"
    and "snd (snd (GetRowsByPartialKey env f s limit)) =
           snd (snd (acquireHandle env f)) @ SeekOp offset #
             replicate (snd (GetRowsByPartialKey_scan (unicode_ToLower env) (indexKeyLength f)
                               (take (nat (indexKeyLength f)) s) s limit [] (csv_Read env h offset))) ReadOp"
  using assms
  by (auto simp: GetRowsByPartialKey_def GetRowsByPartialKey_body_def slice_to_def split: prod.splits)


text \<open>
  Claim C9. With a limit of 0, or a negative limit other than -1, when the
  records read start with records \<open>before\<close> of the region, none of them a
  matching record of the region, followed by a record \<open>line\<close> that shares the
  prefix and matches, \<^verbatim>\<open>GetRowsByPartialKey\<close> returns exactly one row, \<open>line\<close>,
  the first matching record, and returns at once after appending it: \<open>line\<close> is
  the last record read, whatever comes \<open>after\<close>.
\<close>

theorem degenerate_limit_first_match:
  assumes "0 \<le> indexKeyLength f"
    and "indexKeyLength f \<le> int (length s)"
    and "index f (take (nat (indexKeyLength f)) s) = Some offset"
    and "fst (acquireHandle env f) = Return (Some h) None"
    and "file_Seek env h offset = None"
    and "csv_Read env h offset = before @ (line, e) # after"
    and "\<forall>(l, e')\<in>set before. in_region (indexKeyLength f) s l
           \<and> \<not> (shares_prefix (indexKeyLength f) s l \<and> matches (unicode_ToLower env) s l)"
    and "shares_prefix (indexKeyLength f) s line" and "matches (unicode_ToLower env) s line"
    and "limit = 0 \<or> limit < - 1"
  shows "fst (GetRowsByPartialKey env f s limit) = Return [line] None
       \<and> snd (snd (GetRowsByPartialKey env f s limit)) =
           snd (snd (acquireHandle env f)) @ SeekOp offset # replicate (length before + 1) ReadOp"
proof -
  let ?n = "indexKeyLength f"
  let ?lower = "unicode_ToLower env"
  let ?scan = "GetRowsByPartialKey_scan ?lower ?n (take (nat ?n) s) s limit"
  from assms(7) have none: "matching_records ?lower ?n s (map fst before) = []"
    by (auto simp: matching_records_def filter_empty_conv)
  from assms(7) have "\<forall>(l, e')\<in>set before. in_region ?n s l" by auto
  then have "?scan [] (before @ (line, e) # after) =
      (case ?scan ([] @ matching_records ?lower ?n s (map fst before)) ((line, e) # after) of
         (r, reads) \<Rightarrow> (r, length before + reads))"
    using none by (intro partial_scan_skip assms(1)) auto
  moreover from assms(10) have "?scan [] ((line, e) # after) = (Return ([] @ [line]) None, 1)"
    by (intro partial_scan_hit assms(1,8,9)) auto
  ultimately have "?scan [] (csv_Read env h offset) = (Return [line] None, length before + 1)"
    by (simp add: none assms(6))
  then show ?thesis
    by (simp add: GetRowsByPartialKey_acquired [OF assms(1-5)])
qed


lemma example_matches:
  "matches lower ''caT'' [''cat'', ''1'']" "matches lower ''caT'' [''cats'', ''2'']"
  "matches lower ''cats'' [''cats'', ''2'']" "\<not> matches lower ''cats'' [''cat'', ''1'']"
  by (simp_all only: matches_def list.case Contains_ToLower [symmetric]) code_simp+

lemma example_prefixes:
  "in_region 2 (''ca'' @ rest) [''cat'', ''1'']" "in_region 2 (''ca'' @ rest) [''cats'', ''2'']"
  "shares_prefix 2 (''ca'' @ rest) [''cat'', ''1'']" "shares_prefix 2 (''ca'' @ rest) [''cats'', ''2'']"
  "ends_region 2 (''ca'' @ rest) [''bat'', ''3'']"
  by (simp_all add: in_region_def shares_prefix_def ends_region_def)

lemma accent_scene:
  "file_Seek accent_env (File ''data.csv'') 0 = None"
  "csv_Read accent_env (File ''data.csv'') 0 = accent_records"
  "unicode_ToLower accent_env = lower_E_acute"
  "fst (acquireHandle accent_env example_index) = Return (Some (File ''data.csv'')) None"
  "snd (snd (acquireHandle accent_env example_index)) = [OpenOp ''data.csv'']"
  by (simp_all add: accent_env_def example_env_def example_reader_def acquireHandle_def
        pool_Get_def pool_New_def example_index_def)

lemma accent_matches:
  "matches lower_E_acute cafe_lower [cafe_upper, ''1'']"
  "matches lower_E_acute cafe_lower [cafe_lower, ''2'']"
  "shares_prefix 2 cafe_lower [cafe_upper, ''1'']"
  "shares_prefix 2 cafe_lower [cafe_lower, ''2'']"
  "in_region 2 cafe_lower [cafe_upper, ''1'']"
  "in_region 2 cafe_lower [cafe_lower, ''2'']"
  "length cafe_lower = 5"
  "take 2 cafe_lower = ''ca''"
  by (simp_all only: matches_def list.case Contains_ToLower [symmetric]) code_simp+



theorem degenerate_limit_first_match_witness:
  "fst (GetRowsByPartialKey example_env example_index ''caT'' 0) = Return [[''cat'', ''1'']] None
   \<and> snd (snd (GetRowsByPartialKey example_env example_index ''caT'' 0)) =
       [OpenOp ''data.csv'', SeekOp 0, ReadOp]
   \<and> fst (GetRowsByPartialKey example_env example_index ''cats'' (- 2)) = Return [[''cats'', ''2'']] None
   \<and> snd (snd (GetRowsByPartialKey example_env example_index ''cats'' (- 2))) =
       [OpenOp ''data.csv'', SeekOp 0, ReadOp, ReadOp]
   \<and> fst (GetRowsByPartialKey accent_env example_index cafe_lower 0) = Return [[cafe_upper, ''1'']] None
   \<and> snd (snd (GetRowsByPartialKey accent_env example_index cafe_lower 0)) =
       [OpenOp ''data.csv'', SeekOp 0, ReadOp]"
proof -
  have a: "fst (GetRowsByPartialKey example_env example_index ''caT'' 0) = Return [[''cat'', ''1'']] None
   \<and> snd (snd (GetRowsByPartialKey example_env example_index ''caT'' 0)) =
       [OpenOp ''data.csv'', SeekOp 0, ReadOp]"
    using degenerate_limit_first_match [of example_index "''caT''" 0 example_env "File ''data.csv''"
        "[]" "[''cat'', ''1'']" None "tl example_records" 0]
      example_prefixes [of "''T''"]
    by (simp add: example_scene example_matches example_records_def)
  have b: "fst (GetRowsByPartialKey example_env example_index ''cats'' (- 2)) = Return [[''cats'', ''2'']] None
   \<and> snd (snd (GetRowsByPartialKey example_env example_index ''cats'' (- 2))) =
       [OpenOp ''data.csv'', SeekOp 0, ReadOp, ReadOp]"
    using degenerate_limit_first_match [of example_index "''cats''" 0 example_env "File ''data.csv''"
        "[([''cat'', ''1''], None)]" "[''cats'', ''2'']" None "[([''bat'', ''3''], None)]" "- 2"]
      example_prefixes [of "''ts''"]
    by (simp add: example_scene example_matches example_records_def)
  have c: "fst (GetRowsByPartialKey accent_env example_index cafe_lower 0) = Return [[cafe_upper, ''1'']] None
   \<and> snd (snd (GetRowsByPartialKey accent_env example_index cafe_lower 0)) =
       [OpenOp ''data.csv'', SeekOp 0, ReadOp]"
    using degenerate_limit_first_match [of example_index cafe_lower 0 accent_env "File ''data.csv''"
        "[]" "[cafe_upper, ''1'']" None "[([cafe_lower, ''2''], None)]" 0]
    by (simp add: example_scene(1,2) accent_scene accent_matches accent_records_def)
  from a b c show ?thesis by simp
qed

section \<open>The handle pool\<close>

lemmas eval_defs = GetRow_def GetRow_body_def GetRowsByPartialKey_def GetRowsByPartialKey_body_def
  acquireHandle_def pool_Get_def pool_New_def releaseHandle_def slice_to_def example_env_def
  example_index_def example_reader_def example_records_def

lemma pool_Get_cases:
  assumes "pool_Get env f = (x, f', ops)"
  shows "(x = NilInterface \<and> f' = f) \<or> (\<exists>h p. x = FilePtr (Some h) \<and> f' = f\<lparr>pool := p\<rparr>)"
proof (cases "pool f")
  case Nil
  have same: "f = f\<lparr>pool := pool f\<rparr>" by simp
  show ?thesis
  proof (cases "os_Open env (dataCsvPath f)")
    case (Inl e)
    with assms Nil show ?thesis by (simp add: pool_Get_def pool_New_def)
  next
    case (Inr opened)
    with assms Nil have "x = FilePtr (Some opened)" "f' = f"
      by (simp_all add: pool_Get_def pool_New_def)
    with same show ?thesis by metis
  qed
next
  case (Cons h idle)
  with assms have "x = FilePtr (Some h)" "f' = f\<lparr>pool := idle\<rparr>"
    by (simp_all add: pool_Get_def)
  then show ?thesis by blast
qed

lemma acquireHandle_cases:
  assumes "acquireHandle env f = (r, f', ops)"
  shows "(r = Return None (Some TooManyConcurrentHandlesError) \<and> f' = f \<and> ops = [])
       \<or> (r = Panic InterfaceConversion \<and> f' = f\<lparr>openHandleCount := openHandleCount f + 1\<rparr>)
       \<or> (\<exists>h p. r = Return (Some h) None
              \<and> f' = f\<lparr>openHandleCount := openHandleCount f + 1, pool := p\<rparr>)"
proof (cases "sint (concurrentHandleLimit f) < sint (openHandleCount f)")
  case True
  with assms show ?thesis by (simp add: acquireHandle_def)
next
  case False
  let ?f = "f\<lparr>openHandleCount := openHandleCount f + 1\<rparr>"
  obtain x g ops' where get: "pool_Get env ?f = (x, g, ops')"
    by (cases "pool_Get env ?f") auto
  from pool_Get_cases [OF get]
  consider "x = NilInterface" "g = ?f" | h p where "x = FilePtr (Some h)" "g = ?f\<lparr>pool := p\<rparr>"
    by blast
  then show ?thesis
  proof cases
    case 1
    with assms False get show ?thesis by (simp add: acquireHandle_def)
  next
    case 2
    with assms False get have "r = Return (Some h) None" "f' = ?f\<lparr>pool := p\<rparr>"
      by (simp_all add: acquireHandle_def)
    then show ?thesis by blast
  qed
qed

text \<open>
  Admission: a caller is turned away, with the state as it was, when the counter
  is above the limit, and a caller that gets a handle found the counter at or
  below the limit. The counter is then one higher, so it stays at or below the
  limit plus one.
\<close>

lemma sint_succ_le: "sint (c + 1 :: 32 word) \<le> sint c + 1"
proof -
  have "sint (c + 1) = signed_take_bit 31 (sint c + 1)"
    by (simp add: sint_word_ariths)
  also have "\<dots> \<le> sint c + 1"
    using sint_ge [of c] by (simp add: signed_take_bit_int_less_eq_self_iff)
  finally show ?thesis .
qed

lemma acquireHandle_admission:
  "(sint (concurrentHandleLimit f) < sint (openHandleCount f) \<longrightarrow>
      acquireHandle env f = (Return None (Some TooManyConcurrentHandlesError), f, []))
   \<and> (fst (acquireHandle env f) = Return (Some h) None \<longrightarrow>
      sint (openHandleCount f) \<le> sint (concurrentHandleLimit f))"
  by (auto simp: acquireHandle_def)

lemma acquireHandle_admitted:
  assumes "acquireHandle env f = (r, f', ops)"
    and "\<not> sint (concurrentHandleLimit f) < sint (openHandleCount f)"
  shows "openHandleCount f' = openHandleCount f + 1
       \<and> concurrentHandleLimit f' = concurrentHandleLimit f"
proof -
  let ?f = "f\<lparr>openHandleCount := openHandleCount f + 1\<rparr>"
  obtain x g ops' where get: "pool_Get env ?f = (x, g, ops')"
    by (cases "pool_Get env ?f") auto
  with assms have "f' = g"
    by (auto simp: acquireHandle_def split: iface.splits option.splits)
  moreover from pool_Get_cases [OF get]
  have "openHandleCount g = openHandleCount f + 1 \<and> concurrentHandleLimit g = concurrentHandleLimit f"
    by auto
  ultimately show ?thesis by simp
qed

lemma acquireHandle_count_bound:
  assumes "acquireHandle env f = (r, f', ops)"
    and "sint (openHandleCount f) \<le> sint (concurrentHandleLimit f) + 1"
  shows "sint (openHandleCount f') \<le> sint (concurrentHandleLimit f') + 1"
proof (cases "sint (concurrentHandleLimit f) < sint (openHandleCount f)")
  case True
  with assms show ?thesis by (simp add: acquireHandle_def)
next
  case False
  from acquireHandle_admitted [OF assms(1) False] False sint_succ_le [of "openHandleCount f"]
  show ?thesis by simp
qed

text \<open>
  Claim C3. The counter of open handles is to stay at or below the handle limit
  after every call. The admission test \<^verbatim>\<open>count > f.concurrentHandleLimit\<close> lets a
  caller in when the counter equals the limit: with a limit of 1, two calls of
  \<^verbatim>\<open>acquireHandle\<close> in a row both return a handle and leave the counter at 2.
\<close>

theorem second_handle_exceeds_limit_one:
  "fst (acquireHandle example_env limit_one_index) = Return (Some (File ''data.csv'')) None
   \<and> fst (acquireHandle example_env (fst (snd (acquireHandle example_env limit_one_index)))) =
       Return (Some (File ''data.csv'')) None
   \<and> sint (openHandleCount
         (fst (snd (acquireHandle example_env (fst (snd (acquireHandle example_env limit_one_index))))))) = 2
   \<and> sint (concurrentHandleLimit
         (fst (snd (acquireHandle example_env (fst (snd (acquireHandle example_env limit_one_index))))))) = 1"
  by (simp add: limit_one_index_def eval_defs)

text \<open>
  Claim C4. When the admission test passes and the data file cannot be opened,
  \<^verbatim>\<open>acquireHandle\<close> is to return \<^verbatim>\<open>InvalidHandleError\<close>. The pool's \<^verbatim>\<open>New\<close> returns
  the nil interface, and the type assertion on it panics before the test
  \<^verbatim>\<open>handle == nil\<close> is reached; the counter stays incremented.
\<close>

theorem failed_open_panics:
  "acquireHandle no_open_env example_index =
     (Panic InterfaceConversion, example_index\<lparr>openHandleCount := 1\<rparr>, [OpenOp ''data.csv''])"
  by (simp add: no_open_env_def eval_defs)

section \<open>Read errors in the scan loops\<close>

text \<open>
  Claim C5. A read error other than \<^verbatim>\<open>io.EOF\<close> is to be returned to the caller.
  The loops test the error for \<^verbatim>\<open>io.EOF\<close> only: a record that comes with an error
  is used like any other (\<^verbatim>\<open>GetRow\<close> returns it with a nil error), and a read that
  returns an error and no field makes \<^verbatim>\<open>line[0]\<close> panic, in both functions.
\<close>

theorem read_errors_not_returned:
  "fst (GetRow damaged_env example_index ''cats'') = Return (Some [''cats'', ''2'', ''x'']) None
   \<and> fst (GetRow damaged_env example_index ''cab'') = Panic IndexOutOfRange
   \<and> fst (GetRowsByPartialKey damaged_env example_index ''ca'' (- 1)) = Panic IndexOutOfRange"
  by (simp add: damaged_env_def damaged_records_def eval_defs ToLower_def lower_byte_def)

section \<open>Construction\<close>

text \<open>
  A line whose offset does not parse leaves the index as it was, a later line
  for a prefix replaces the earlier offset, and an error is returned only when a
  path does not exist or the index file cannot be opened.
\<close>

lemma load_index_append:
  "load_index (xs @ ys) idx =
     (case load_index xs idx of Inl p \<Rightarrow> Inl p | Inr m \<Rightarrow> load_index ys m)"
proof (induction xs arbitrary: idx)
  case Nil
  then show ?case by simp
next
  case (Cons a xs)
  note IH = Cons.IH
  obtain line e where a: "a = (line, e)" by (cases a)
  show ?case
  proof (cases line)
    case Nil
    then show ?thesis by (simp add: a)
  next
    case outer: (Cons key more_columns)
    show ?thesis
    proof (cases more_columns)
      case Nil
      with outer show ?thesis by (simp add: a)
    next
      case inner: (Cons column1 others)
      with outer show ?thesis
        by (cases "ParseInt column1") (simp_all only: a append_Cons load_index.simps
              list.case option.case IH)
    qed
  qed
qed

lemma load_index_unparsable_skipped:
  assumes "ParseInt column1 = None"
  shows "load_index (before @ (key # column1 # others, e) # after) idx = load_index (before @ after) idx"
  using assms by (simp add: load_index_append split: sum.splits)

lemma load_index_last_wins:
  assumes "load_index (before @ [(key # column1 # others, e)]) idx = Inr m"
    and "ParseInt column1 = Some offset"
  shows "m key = Some offset"
  using assms by (auto simp: load_index_append split: sum.splits)

lemma NewFileIndex_error:
  assumes "fst (NewFileIndex env config) = Return v (Some err)"
  shows "is_ErrNotExist (os_Stat env (DataCsvPath config))
       \<or> is_ErrNotExist (os_Stat env (IndexCsvPath config))
       \<or> os_Open env (IndexCsvPath config) = Inl err"
  using assms by (auto simp: NewFileIndex_def split: if_splits sum.splits)

lemma example_NewFileIndex:
  "fst (NewFileIndex example_env example_config) = Return (Some example_index) None"
  by (simp add: NewFileIndex_def is_ErrNotExist_def example_config_def example_env_def
        example_reader_def example_index_lines_def example_index_def ParseInt_def digit_of_def)

text \<open>
  Claim C6. Once the index file is open, construction is never to fail. A line
  with a single column makes \<^verbatim>\<open>line[1]\<close> panic.
\<close>

theorem one_column_index_line_panics:
  "fst (NewFileIndex one_column_env example_config) = Panic IndexOutOfRange"
  by (simp add: NewFileIndex_def one_column_env_def is_ErrNotExist_def example_config_def eval_defs)

section \<open>What a lookup leaves behind\<close>

lemma GetRow_frame:
  assumes "GetRow env f k = (r, f', ops)"
  shows "same_configuration f f'
       \<and> (openHandleCount f' = openHandleCount f \<or> r = Panic InterfaceConversion)
       \<and> (fst (acquireHandle env f) = Return (Some h) None \<longrightarrow> openHandleCount f' = openHandleCount f)"
proof -
  obtain ra f1 ops1 where acq: "acquireHandle env f = (ra, f1, ops1)"
    by (cases "acquireHandle env f") auto
  from acquireHandle_cases [OF acq]
  consider (full) "ra = Return None (Some TooManyConcurrentHandlesError)" "f1 = f"
    | (crash) "ra = Panic InterfaceConversion" "f1 = f\<lparr>openHandleCount := openHandleCount f + 1\<rparr>"
    | (got) h' p where "ra = Return (Some h') None"
        "f1 = f\<lparr>openHandleCount := openHandleCount f + 1, pool := p\<rparr>"
    by blast
  then show ?thesis
  proof cases
    case full
    with assms acq show ?thesis
      by (auto simp: GetRow_def same_configuration_def split: if_splits sum.splits option.splits)
  next
    case crash
    with assms acq show ?thesis
      by (auto simp: GetRow_def same_configuration_def split: if_splits sum.splits option.splits)
  next
    case got
    from assms acq got(1) have "f' = f \<or> f' = releaseHandle f1 (Some h')"
      by (auto simp: GetRow_def split: if_splits sum.splits option.splits prod.splits)
    then show ?thesis
    proof
      assume "f' = f"
      then show ?thesis by (simp add: same_configuration_def)
    next
      assume "f' = releaseHandle f1 (Some h')"
      with got(2) show ?thesis by (simp add: same_configuration_def releaseHandle_def)
    qed
  qed
qed

lemma GetRowsByPartialKey_frame:
  assumes "GetRowsByPartialKey env f s limit = (r, f', ops)"
  shows "same_configuration f f'
       \<and> (openHandleCount f' = openHandleCount f \<or> r = Panic InterfaceConversion)
       \<and> (fst (acquireHandle env f) = Return (Some h) None \<longrightarrow> openHandleCount f' = openHandleCount f)"
proof -
  obtain ra f1 ops1 where acq: "acquireHandle env f = (ra, f1, ops1)"
    by (cases "acquireHandle env f") auto
  from acquireHandle_cases [OF acq]
  consider (full) "ra = Return None (Some TooManyConcurrentHandlesError)" "f1 = f"
    | (crash) "ra = Panic InterfaceConversion" "f1 = f\<lparr>openHandleCount := openHandleCount f + 1\<rparr>"
    | (got) h' p where "ra = Return (Some h') None"
        "f1 = f\<lparr>openHandleCount := openHandleCount f + 1, pool := p\<rparr>"
    by blast
  then show ?thesis
  proof cases
    case full
    with assms acq show ?thesis
      by (auto simp: GetRowsByPartialKey_def same_configuration_def split: if_splits sum.splits option.splits)
  next
    case crash
    with assms acq show ?thesis
      by (auto simp: GetRowsByPartialKey_def same_configuration_def split: if_splits sum.splits option.splits)
  next
    case got
    from assms acq got(1) have "f' = f \<or> f' = releaseHandle f1 (Some h')"
      by (auto simp: GetRowsByPartialKey_def split: if_splits sum.splits option.splits prod.splits)
    then show ?thesis
    proof
      assume "f' = f"
      then show ?thesis by (simp add: same_configuration_def)
    next
      assume "f' = releaseHandle f1 (Some h')"
      with got(2) show ?thesis by (simp add: same_configuration_def releaseHandle_def)
    qed
  qed
qed

text \<open>
  Claim C10. On every way out of \<^verbatim>\<open>GetRow\<close> and of \<^verbatim>\<open>GetRowsByPartialKey\<close>, a
  panic included, the engine keeps its configuration and its prefix index: only
  the counter of open handles and the pool can differ. The counter is back at
  its value on every way out but the panic of \<^verbatim>\<open>acquireHandle\<close> on the nil
  interface; in particular it is back whenever the handle was acquired.
\<close>

theorem lookups_frame:
  "(GetRow env f k = (r, f', ops) \<longrightarrow>
      same_configuration f f'
      \<and> (openHandleCount f' = openHandleCount f \<or> r = Panic InterfaceConversion)
      \<and> (fst (acquireHandle env f) = Return (Some h) None \<longrightarrow> openHandleCount f' = openHandleCount f))
   \<and> (GetRowsByPartialKey env f s limit = (rs, g', ops') \<longrightarrow>
      same_configuration f g'
      \<and> (openHandleCount g' = openHandleCount f \<or> rs = Panic InterfaceConversion)
      \<and> (fst (acquireHandle env f) = Return (Some h) None \<longrightarrow> openHandleCount g' = openHandleCount f))"
  using GetRow_frame [of env f k r f' ops h] GetRowsByPartialKey_frame [of env f s limit rs g' ops' h]
  by blast

theorem lookups_frame_witness:
  "same_configuration example_index (fst (snd (GetRow example_env example_index ''cats'')))
   \<and> openHandleCount (fst (snd (GetRow example_env example_index ''cats''))) =
       openHandleCount example_index
   \<and> same_configuration example_index (fst (snd (GetRowsByPartialKey example_env example_index ''caT'' 1)))
   \<and> openHandleCount (fst (snd (GetRowsByPartialKey example_env example_index ''caT'' 1))) =
       openHandleCount example_index"
  using lookups_frame [of example_env example_index "''cats''"
      "fst (GetRow example_env example_index ''cats'')"
      "fst (snd (GetRow example_env example_index ''cats''))"
      "snd (snd (GetRow example_env example_index ''cats''))"
      "File ''data.csv''" "''caT''" 1
      "fst (GetRowsByPartialKey example_env example_index ''caT'' 1)"
      "fst (snd (GetRowsByPartialKey example_env example_index ''caT'' 1))"
      "snd (snd (GetRowsByPartialKey example_env example_index ''caT'' 1))"]
  by (simp add: example_scene)


end
